theory Spec2Isabelle
  imports Main "HOL-Library.Char_ord" "HOL-Library.List_Lexorder" "HOL-Library.AList"
begin

section \<open>JavaScript values of the job records\<close>

text \<open>
  The interface \<^verbatim>\<open>JobDto\<close> declares every property a \<^verbatim>\<open>string\<close>. The objects come from
  \<^verbatim>\<open>JSON.parse\<close> and from the paged REST answers, so at run time a property may also be
  missing (\<^verbatim>\<open>undefined\<close>) or \<^verbatim>\<open>null\<close>; the code guards for both with truthiness tests.
  Strings are compared as JavaScript does, by code unit, shorter prefix first; for the
  ASCII timestamps of the backend this is the lexicographic order on \<^typ>\<open>string\<close>.
\<close>

datatype strval = Undefined | Null | Str string

text \<open>
  \<^verbatim>\<open>toKey = (id: string | number) => String(id)\<close>: an identifier may also be a number.
  \<open>IdNum n\<close> is an integral number that prints in plain decimal notation.
\<close>

datatype idval = IdUndefined | IdNull | IdStr string | IdNum int

fun truthy :: "strval \<Rightarrow> bool" where
  "truthy Undefined = False"
| "truthy Null = False"
| "truthy (Str s) = (s \<noteq> [])"

fun truthy_id :: "idval \<Rightarrow> bool" where
  "truthy_id IdUndefined = False"
| "truthy_id IdNull = False"
| "truthy_id (IdStr s) = (s \<noteq> [])"
| "truthy_id (IdNum n) = (n \<noteq> 0)"

text \<open>An optional property of a filter object (\<^verbatim>\<open>tool?: string\<close>): its value when truthy.\<close>

fun active :: "string option \<Rightarrow> string option" where
  "active None = None"
| "active (Some s) = (if s = [] then None else Some s)"

fun string_of_nat :: "nat \<Rightarrow> string" where
  "string_of_nat n =
     (if n < 10 then [''0123456789'' ! n]
      else string_of_nat (n div 10) @ [''0123456789'' ! (n mod 10)])"

declare string_of_nat.simps [simp del]

text \<open>\<^verbatim>\<open>String(n)\<close> and \<^verbatim>\<open>String(v)\<close>.\<close>

definition String_num :: "int \<Rightarrow> string" where
  "String_num n =
     (if n < 0 then CHR ''-'' # string_of_nat (nat (- n)) else string_of_nat (nat n))"

fun String_id :: "idval \<Rightarrow> string" where
  "String_id IdUndefined = ''undefined''"
| "String_id IdNull = ''null''"
| "String_id (IdStr s) = s"
| "String_id (IdNum n) = String_num n"

definition toKey :: "idval \<Rightarrow> string" where
  "toKey i = String_id i"

text \<open>\<^verbatim>\<open>s.split(sep)\<close> for a separator of one character; the result is never empty.\<close>

fun split :: "char \<Rightarrow> string \<Rightarrow> string list" where
  "split sep [] = [[]]"
| "split sep (c # cs) =
     (if c = sep then [] # split sep cs
      else (case split sep cs of [] \<Rightarrow> [[c]] | w # ws \<Rightarrow> (c # w) # ws))"

section \<open>Jobs, filters and date ranges\<close>

record JobDto =
  id_j :: idval
  taskId :: strval
  inputArtifactId :: idval
  baseName :: strval
  dirName :: strval
  tool :: strval
  options :: strval
  createdAt :: strval
  updatedAt :: strval
  alignArtifactId :: strval
  statArtifactId :: strval
  jobStatus :: strval
  message :: strval

record JobFilter =
  inputArtifactId_f :: "string option"
  startDate_f :: "string option"
  endDate_f :: "string option"
  status_f :: "string option"
  tool_f :: "string option"

record DateRange =
  startDate :: "string option"
  endDate :: "string option"

text \<open>
  \<^verbatim>\<open>job.createdAt ? job.createdAt.split('T')[0] : ''\<close>
\<close>

fun jobDate :: "strval \<Rightarrow> string" where
  "jobDate (Str s) = (if s = [] then [] else hd (split (CHR ''T'') s))"
| "jobDate Undefined = []"
| "jobDate Null = []"

text \<open>
  \<^verbatim>\<open>matchesFilter\<close> of InfiniteJobList.tsx: four guarded early returns, then \<^verbatim>\<open>true\<close>.
\<close>

definition matchesFilter :: "JobDto \<Rightarrow> JobFilter \<Rightarrow> DateRange \<Rightarrow> bool" where
  "matchesFilter job filters dateRange =
     (if (case active (inputArtifactId_f filters) of
            Some a \<Rightarrow> String_id (inputArtifactId job) \<noteq> a | None \<Rightarrow> False)
      then False
      else if (case active (tool_f filters) of
            Some t \<Rightarrow> tool job \<noteq> Str t | None \<Rightarrow> False)
      then False
      else if (case active (status_f filters) of
            Some st \<Rightarrow> jobStatus job \<noteq> Str st | None \<Rightarrow> False)
      then False
      else if active (startDate dateRange) \<noteq> None \<or> active (endDate dateRange) \<noteq> None
      then (let d = jobDate (createdAt job) in
            if (case active (startDate dateRange) of Some s \<Rightarrow> d < s | None \<Rightarrow> False)
            then False
            else if (case active (endDate dateRange) of Some e \<Rightarrow> d > e | None \<Rightarrow> False)
            then False
            else True)
      else True)"

text \<open>
  The filter predicate as the specification words it: a conjunction of an exact match on the
  source file, on the tool, on the status, and of the containment of the date component
  (the part of \<^verbatim>\<open>createdAt\<close> before the first \<^verbatim>\<open>T\<close>) in the inclusive range.
\<close>

definition date_component :: "JobDto \<Rightarrow> string" where
  "date_component job =
     (case createdAt job of Str s \<Rightarrow> takeWhile (\<lambda>c. c \<noteq> CHR ''T'') s | _ \<Rightarrow> [])"

definition fields_match :: "JobDto \<Rightarrow> JobFilter \<Rightarrow> bool" where
  "fields_match job filters =
     ((active (inputArtifactId_f filters) = None
        \<or> Some (String_id (inputArtifactId job)) = inputArtifactId_f filters)
    \<and> (active (tool_f filters) = None \<or> tool job = Str (the (tool_f filters)))
    \<and> (active (status_f filters) = None \<or> jobStatus job = Str (the (status_f filters))))"

definition date_in_range :: "JobDto \<Rightarrow> DateRange \<Rightarrow> bool" where
  "date_in_range job dateRange =
     ((active (startDate dateRange) = None \<or> the (startDate dateRange) \<le> date_component job)
    \<and> (active (endDate dateRange) = None \<or> date_component job \<le> the (endDate dateRange)))"

definition filter_conjunction :: "JobDto \<Rightarrow> JobFilter \<Rightarrow> DateRange \<Rightarrow> bool" where
  "filter_conjunction job filters dateRange =
     (fields_match job filters \<and> date_in_range job dateRange)"

definition empty_filter :: JobFilter where
  "empty_filter = \<lparr>inputArtifactId_f = None, startDate_f = None, endDate_f = None,
     status_f = None, tool_f = None\<rparr>"

definition empty_range :: DateRange where
  "empty_range = \<lparr>startDate = None, endDate = None\<rparr>"

section \<open>The live-update map\<close>

text \<open>
  A JavaScript \<^verbatim>\<open>Map\<close> iterates in insertion order, and \<^verbatim>\<open>set\<close> on a key that is present
  replaces the value where it stands: an association list with distinct keys.
\<close>

definition Map_get :: "(string \<times> 'v) list \<Rightarrow> string \<Rightarrow> 'v option" where
  "Map_get m k = map_of m k"

definition Map_set :: "string \<Rightarrow> 'v \<Rightarrow> (string \<times> 'v) list \<Rightarrow> (string \<times> 'v) list" where
  "Map_set k v m = AList.update k v m"

text \<open>
  \<^verbatim>\<open>a >= b\<close> on two strings. The code evaluates it only after both operands passed a
  truthiness test, so both are strings there.
\<close>

fun ge_str :: "strval \<Rightarrow> strval \<Rightarrow> bool" where
  "ge_str (Str a) (Str b) = (b \<le> a)"
| "ge_str _ _ = False"

text \<open>
  The updater that the SSE \<^verbatim>\<open>onMessage\<close> callback passes to \<^verbatim>\<open>setRealtimeJobs\<close>
  (InfiniteJobList.tsx, lines 127 to 160).
\<close>

definition setRealtimeJobs_onMessage ::
  "JobDto \<Rightarrow> (string \<times> JobDto) list \<Rightarrow> (string \<times> JobDto) list" where
  "setRealtimeJobs_onMessage updatedJob prev =
     (let k = toKey (id_j updatedJob);
          next = prev;
          existing = Map_get next k;
          updated = updatedJob
      in if (case existing of
               None \<Rightarrow> True
             | Some ex \<Rightarrow> \<not> truthy (updatedAt updated) \<or> \<not> truthy (updatedAt ex)
                          \<or> ge_str (updatedAt updated) (updatedAt ex))
         then Map_set k updated next
         else next)"

text \<open>
  The acceptance condition as the specification words it: no entry under the key, or no
  timestamp on the update, or none on the entry, or the update's timestamp is not below
  the entry's.
\<close>

definition absent_or_empty :: "strval \<Rightarrow> bool" where
  "absent_or_empty v = (v = Undefined \<or> v = Null \<or> v = Str [])"

definition accepts :: "JobDto \<Rightarrow> (string \<times> JobDto) list \<Rightarrow> bool" where
  "accepts u L =
     (case map_of L (toKey (id_j u)) of
        None \<Rightarrow> True
      | Some ex \<Rightarrow>
          absent_or_empty (updatedAt u) \<or> absent_or_empty (updatedAt ex)
          \<or> (case (updatedAt u, updatedAt ex) of (Str a, Str b) \<Rightarrow> b \<le> a | _ \<Rightarrow> False))"

text \<open>
  The updater of the effect that runs when the filters change (lines 96 to 112): the
  entries that still pass the filter, copied into a fresh map.
\<close>

definition setRealtimeJobs_filter ::
  "JobFilter \<Rightarrow> DateRange \<Rightarrow> (string \<times> JobDto) list \<Rightarrow> (string \<times> JobDto) list" where
  "setRealtimeJobs_filter filters dateRange prev =
     fold (\<lambda>(i, job) filtered.
             if matchesFilter job filters dateRange then Map_set i job filtered else filtered)
       prev []"

text \<open>Every entry of the live map is stored under the key of its own identifier.\<close>

definition keyed :: "(string \<times> JobDto) list \<Rightarrow> bool" where
  "keyed L = (distinct (map fst L) \<and> list_all (\<lambda>(k, j). toKey (id_j j) = k) L)"

section \<open>The displayed list\<close>

text \<open>\<^verbatim>\<open>{ ...job, ...live }\<close>: a property that \<open>live\<close> has replaces that of \<open>job\<close>.\<close>

definition ov :: "strval \<Rightarrow> strval \<Rightarrow> strval" where
  "ov a b = (if b = Undefined then a else b)"

definition ov_id :: "idval \<Rightarrow> idval \<Rightarrow> idval" where
  "ov_id a b = (if b = IdUndefined then a else b)"

definition spread :: "JobDto \<Rightarrow> JobDto \<Rightarrow> JobDto" where
  "spread job live =
     \<lparr>id_j = ov_id (id_j job) (id_j live),
      taskId = ov (taskId job) (taskId live),
      inputArtifactId = ov_id (inputArtifactId job) (inputArtifactId live),
      baseName = ov (baseName job) (baseName live),
      dirName = ov (dirName job) (dirName live),
      tool = ov (tool job) (tool live),
      options = ov (options job) (options live),
      createdAt = ov (createdAt job) (createdAt live),
      updatedAt = ov (updatedAt job) (updatedAt live),
      alignArtifactId = ov (alignArtifactId job) (alignArtifactId live),
      statArtifactId = ov (statArtifactId job) (statArtifactId live),
      jobStatus = ov (jobStatus job) (jobStatus live),
      message = ov (message job) (message live)\<rparr>"

definition merged :: "(string \<times> JobDto) list \<Rightarrow> JobDto \<Rightarrow> JobDto" where
  "merged realtimeJobs job =
     (case Map_get realtimeJobs (toKey (id_j job)) of
        Some live \<Rightarrow> spread job live
      | None \<Rightarrow> job)"

definition existingJobs :: "JobDto list \<Rightarrow> (string \<times> JobDto) list \<Rightarrow> JobDto list" where
  "existingJobs jobs realtimeJobs = map (merged realtimeJobs) jobs"

definition newJobs ::
  "JobDto list \<Rightarrow> (string \<times> JobDto) list \<Rightarrow> JobFilter \<Rightarrow> DateRange \<Rightarrow> JobDto list" where
  "newJobs jobs realtimeJobs filters dateRange =
     fold (\<lambda>(i, realtimeJob) acc.
             let existsInJobs = list_ex (\<lambda>job. toKey (id_j job) = i) jobs
             in if \<not> existsInJobs
                then (if matchesFilter realtimeJob filters dateRange
                      then acc @ [realtimeJob] else acc)
                else acc)
       realtimeJobs []"

text \<open>The callback of \<^verbatim>\<open>allJobs.forEach\<close> that fills the map \<^verbatim>\<open>uniqueJobs\<close>.\<close>

definition uniqueJobs_step :: "JobDto \<Rightarrow> (string \<times> JobDto) list \<Rightarrow> (string \<times> JobDto) list" where
  "uniqueJobs_step job m =
     (let key = toKey (id_j job) in
      (case Map_get m key of
         None \<Rightarrow> Map_set key job m
       | Some existing \<Rightarrow>
           if truthy (updatedAt job) \<and> truthy (updatedAt existing)
              \<and> ge_str (updatedAt job) (updatedAt existing)
           then Map_set key job m else m))"

definition uniqueJobs :: "JobDto list \<Rightarrow> (string \<times> JobDto) list" where
  "uniqueJobs allJobs = fold uniqueJobs_step allJobs []"

text \<open>
  \<^verbatim>\<open>new Date(a.createdAt || 0).getTime()\<close>. Parsing a date string is the browser's; it is the
  parameter \<open>parse\<close>, in milliseconds since the epoch. The strings are taken to parse: for
  an invalid date the comparator yields \<^verbatim>\<open>NaN\<close> and the order that \<^verbatim>\<open>sort\<close> produces
  is left to the engine.
\<close>

fun getTime :: "(string \<Rightarrow> int) \<Rightarrow> strval \<Rightarrow> int" where
  "getTime parse (Str s) = (if s = [] then 0 else parse s)"
| "getTime parse Undefined = 0"
| "getTime parse Null = 0"

text \<open>
  \<^verbatim>\<open>Array.prototype.sort\<close> with a comparator: stable, \<open>a\<close> stays before \<open>b\<close> when
  \<open>cmp a b \<le> 0\<close>.
\<close>

fun insert_cmp :: "('a \<Rightarrow> 'a \<Rightarrow> int) \<Rightarrow> 'a \<Rightarrow> 'a list \<Rightarrow> 'a list" where
  "insert_cmp cmp x [] = [x]"
| "insert_cmp cmp x (y # ys) =
     (if cmp x y \<le> 0 then x # y # ys else y # insert_cmp cmp x ys)"

definition Array_sort :: "('a \<Rightarrow> 'a \<Rightarrow> int) \<Rightarrow> 'a list \<Rightarrow> 'a list" where
  "Array_sort cmp xs = foldr (insert_cmp cmp) xs []"

definition displayJobs ::
  "(string \<Rightarrow> int) \<Rightarrow> JobDto list \<Rightarrow> (string \<times> JobDto) list \<Rightarrow> JobFilter \<Rightarrow> DateRange
     \<Rightarrow> JobDto list" where
  "displayJobs parse jobs realtimeJobs filters dateRange =
     (let allJobs = newJobs jobs realtimeJobs filters dateRange @ existingJobs jobs realtimeJobs;
          finalJobs = map snd (uniqueJobs allJobs)
      in Array_sort (\<lambda>a b. getTime parse (createdAt b) - getTime parse (createdAt a))
           finalJobs)"

text \<open>
  The reference merge of the specification, as a relation between the base list \<open>B\<close>, the
  live map \<open>L\<close> and a displayed list \<open>out\<close>: no key twice; every job of \<open>B\<close> is there under
  its key, as a job of \<open>B\<close> with that key overlaid with the entry of \<open>L\<close>; a job that only
  \<open>L\<close> has is there exactly when it passes the filter; nothing else is there; newest first.
\<close>

definition key_of :: "JobDto \<Rightarrow> string" where
  "key_of job = toKey (id_j job)"

definition overlay :: "(string \<times> JobDto) list \<Rightarrow> JobDto \<Rightarrow> JobDto" where
  "overlay L b = (case map_of L (key_of b) of Some live \<Rightarrow> spread b live | None \<Rightarrow> b)"


text \<open>Names used in the proofs: the entries stand under their own keys; the merged array.\<close>

definition own_keys :: "(string \<times> JobDto) list \<Rightarrow> bool" where
  "own_keys m = (\<forall>(k, j) \<in> set m. key_of j = k)"

definition allJobs ::
  "JobDto list \<Rightarrow> (string \<times> JobDto) list \<Rightarrow> JobFilter \<Rightarrow> DateRange \<Rightarrow> JobDto list" where
  "allJobs B L filters dateRange = newJobs B L filters dateRange @ existingJobs B L"

section \<open>Thrown values\<close>

text \<open>
  What a \<^verbatim>\<open>throw\<close> or a rejected promise carries: an \<^verbatim>\<open>Error\<close> object with its name and
  message, or a value that is not an \<^verbatim>\<open>Error\<close>.
\<close>

datatype thrown = JsError string string | NonError

text \<open>\<^verbatim>\<open>err instanceof Error ? err.message : d\<close>\<close>

fun message_or :: "string \<Rightarrow> thrown \<Rightarrow> string" where
  "message_or d (JsError name msg) = msg"
| "message_or d NonError = d"

section \<open>The SSE job monitor\<close>

text \<open>
  What \<^verbatim>\<open>JSON.parse\<close> returns: \<^verbatim>\<open>null\<close>; a value that has no property \<^verbatim>\<open>id\<close> (a number,
  a string, a boolean, an array); or an object, read as a \<^verbatim>\<open>JobDto\<close>.
\<close>

datatype parsed = PNull | PNoProperties | PObject JobDto

text \<open>
  The body of \<^verbatim>\<open>eventSource.onmessage\<close> inside its \<^verbatim>\<open>try\<close>: the calls it makes to the
  callback, and the exception that ends it, if any. \<open>JSON_parse\<close> is the browser's parser
  (\<open>Inl\<close> its \<^verbatim>\<open>SyntaxError\<close>); \<open>onMessage\<close> says what the callback throws, if it does.
  Reading \<^verbatim>\<open>job.id\<close> of \<^verbatim>\<open>null\<close> raises a \<^verbatim>\<open>TypeError\<close>; its message is the engine's and is
  left empty here.
\<close>

definition onmessage_try ::
  "(string \<Rightarrow> thrown + parsed) \<Rightarrow> (JobDto \<Rightarrow> thrown option) \<Rightarrow> string
     \<Rightarrow> JobDto list \<times> thrown option" where
  "onmessage_try JSON_parse onMessage data =
     (case JSON_parse data of
        Inl e \<Rightarrow> ([], Some e)
      | Inr PNull \<Rightarrow> ([], Some (JsError ''TypeError'' []))
      | Inr PNoProperties \<Rightarrow> ([], None)
      | Inr (PObject job) \<Rightarrow>
          if truthy_id (id_j job)
             \<and> (\<not> truthy (taskId job) \<or> taskId job \<noteq> Str ''KEEP_ALIVE'')
          then ([job], onMessage job)
          else ([], None))"

text \<open>The handler: the \<^verbatim>\<open>catch\<close> logs whatever was thrown and ends normally.\<close>

definition onmessage ::
  "(string \<Rightarrow> thrown + parsed) \<Rightarrow> (JobDto \<Rightarrow> thrown option) \<Rightarrow> string
     \<Rightarrow> JobDto list \<times> thrown option" where
  "onmessage JSON_parse onMessage data =
     (case onmessage_try JSON_parse onMessage data of (calls, e) \<Rightarrow> (calls, None))"

text \<open>A message that the specification lets through.\<close>

definition deliverable :: "(string \<Rightarrow> thrown + parsed) \<Rightarrow> string \<Rightarrow> JobDto \<Rightarrow> bool" where
  "deliverable JSON_parse data job =
     (JSON_parse data = Inr (PObject job) \<and> truthy_id (id_j job)
      \<and> (absent_or_empty (taskId job) \<or> taskId job \<noteq> Str ''KEEP_ALIVE''))"

text \<open>
  The connection state of \<^verbatim>\<open>JobMonitor\<close>. \<open>eventSource\<close> holds the ready state of the
  \<^verbatim>\<open>EventSource\<close>, \<open>None\<close> for \<^verbatim>\<open>null\<close>. \<open>reconnectTimer\<close> is the timer handle: \<open>None\<close> for
  \<^verbatim>\<open>null\<close>, else whether the timeout is still to fire (the code leaves the handle in place
  when it fires). \<open>trace\<close> records the calls made to the browser and to the callbacks, oldest
  first.
\<close>

datatype readyState = CONNECTING | OPEN | CLOSED

datatype timer = Pending | Fired

datatype effect =
  NewEventSource | CloseEventSource | SetTimeout nat | ClearTimeout
  | CallOnOpen | CallOnError | MaxAttemptsReached

record JobMonitor =
  eventSource :: "readyState option"
  reconnectTimer :: "timer option"
  reconnectAttempts :: nat
  maxReconnectAttempts :: nat
  reconnectDelay :: nat
  isConnected :: bool
  trace :: "effect list"

definition emit :: "effect \<Rightarrow> JobMonitor \<Rightarrow> JobMonitor" where
  "emit e m = m\<lparr>trace := trace m @ [e]\<rparr>"

definition scheduleReconnect :: "JobMonitor \<Rightarrow> JobMonitor" where
  "scheduleReconnect m =
     (if reconnectAttempts m \<ge> maxReconnectAttempts m then emit MaxAttemptsReached m
      else emit (SetTimeout (reconnectDelay m))
             (m\<lparr>reconnectAttempts := reconnectAttempts m + 1, reconnectTimer := Some Pending\<rparr>))"

text \<open>\<open>created\<close> tells whether \<^verbatim>\<open>new EventSource(url)\<close> returns; when it throws, the \<^verbatim>\<open>catch\<close> runs.\<close>

definition connect :: "bool \<Rightarrow> JobMonitor \<Rightarrow> JobMonitor" where
  "connect created m =
     (if eventSource m = Some OPEN then m
      else if created then emit NewEventSource (m\<lparr>eventSource := Some CONNECTING\<rparr>)
      else scheduleReconnect (m\<lparr>isConnected := False\<rparr>))"

definition disconnect :: "JobMonitor \<Rightarrow> JobMonitor" where
  "disconnect m =
     (let m1 = (if reconnectTimer m \<noteq> None
                then emit ClearTimeout (m\<lparr>reconnectTimer := None\<rparr>) else m);
          m2 = (if eventSource m1 \<noteq> None
                then emit CloseEventSource (m1\<lparr>eventSource := None\<rparr>) else m1)
      in m2\<lparr>reconnectAttempts := 0\<rparr>)"

definition reconnect :: "bool \<Rightarrow> JobMonitor \<Rightarrow> JobMonitor" where
  "reconnect created m = connect created (disconnect m)"

definition onopen :: "JobMonitor \<Rightarrow> JobMonitor" where
  "onopen m = emit CallOnOpen (m\<lparr>isConnected := True, reconnectAttempts := 0\<rparr>)"

definition onerror :: "JobMonitor \<Rightarrow> JobMonitor" where
  "onerror m = scheduleReconnect (disconnect (emit CallOnError (m\<lparr>isConnected := False\<rparr>)))"

text \<open>The constructor: \<^verbatim>\<open>maxReconnectAttempts = 3\<close>, then \<^verbatim>\<open>this.connect()\<close>.\<close>

definition JobMonitor_new :: "nat \<Rightarrow> bool \<Rightarrow> JobMonitor" where
  "JobMonitor_new delay created =
     connect created
       \<lparr>eventSource = None, reconnectTimer = None, reconnectAttempts = 0,
        maxReconnectAttempts = 3, reconnectDelay = delay, isConnected = False, trace = []\<rparr>"

text \<open>
  What can happen to a monitor: the stream opens or fails (the browser calls the handlers
  of the current \<^verbatim>\<open>EventSource\<close> only), the pending timeout fires and calls \<^verbatim>\<open>connect\<close>, or
  the owner calls \<^verbatim>\<open>disconnect\<close> or \<^verbatim>\<open>reconnect\<close>.
\<close>

datatype event =
  StreamOpens | StreamFails | TimeoutFires bool | CallDisconnect | CallReconnect bool

fun step :: "event \<Rightarrow> JobMonitor \<Rightarrow> JobMonitor" where
  "step StreamOpens m =
     (if eventSource m = None then m else onopen (m\<lparr>eventSource := Some OPEN\<rparr>))"
| "step StreamFails m = (if eventSource m = None then m else onerror m)"
| "step (TimeoutFires created) m =
     (if reconnectTimer m = Some Pending
      then connect created (m\<lparr>reconnectTimer := Some Fired\<rparr>) else m)"
| "step CallDisconnect m = disconnect m"
| "step (CallReconnect created) m = reconnect created m"

definition run :: "event list \<Rightarrow> JobMonitor \<Rightarrow> JobMonitor" where
  "run events m = fold step events m"

text \<open>The reconnect attempts scheduled so far: the calls of \<^verbatim>\<open>setTimeout\<close>.\<close>

fun is_SetTimeout :: "effect \<Rightarrow> bool" where
  "is_SetTimeout (SetTimeout d) = True"
| "is_SetTimeout _ = False"

definition attempts_scheduled :: "JobMonitor \<Rightarrow> nat" where
  "attempts_scheduled m = length (filter is_SetTimeout (trace m))"

text \<open>\<open>n\<close> failures in a row: the stream fails, the timeout fires, the new stream fails, ...\<close>

definition failures :: "nat \<Rightarrow> event list" where
  "failures n = concat (replicate n [StreamFails, TimeoutFires True])"

section \<open>The infinite-scroll pager\<close>







section \<open>The HTTP client\<close>

record ApiError =
  timestamp :: string
  status :: int
  error :: string
  message_e :: string
  path :: string

text \<open>
  What \<^verbatim>\<open>response.json()\<close> resolves with: \<^verbatim>\<open>null\<close> or another JSON value. The field \<open>json\<close>
  of a response is \<open>Inl\<close> when the promise rejects (a body that is not JSON).
\<close>

datatype 'j parsed_body = JsonNull | JsonValue 'j

record 'j Response =
  status_r :: int
  statusText :: string
  content_type :: "string option"
  json :: "thrown + 'j parsed_body"

text \<open>\<^verbatim>\<open>response.ok\<close>: the status is in the range 200 to 299.\<close>

definition ok :: "'j Response \<Rightarrow> bool" where
  "ok response = (200 \<le> status_r response \<and> status_r response \<le> 299)"

text \<open>\<^verbatim>\<open>s.includes(t)\<close>\<close>

fun includes_str :: "string \<Rightarrow> string \<Rightarrow> bool" where
  "includes_str [] t = (t = [])"
| "includes_str (c # cs) t = (take (length t) (c # cs) = t \<or> includes_str cs t)"

text \<open>
  The field \<^verbatim>\<open>apiError\<close> of an \<^verbatim>\<open>ApiClientError\<close>: the parsed body of the error response as
  it came, or a record that \<^verbatim>\<open>request\<close> builds.
\<close>

datatype 'j errorData = FromBody 'j | Built ApiError

datatype 'j rejection = ApiClientError "'j errorData" | Uncaught thrown

datatype 'j reply = Json "'j parsed_body" | Raw "'j Response"

definition network_error :: "string \<Rightarrow> thrown \<Rightarrow> string \<Rightarrow> ApiError" where
  "network_error now err endpoint =
     \<lparr>timestamp = now, status = 0, error = ''Network Error'',
      message_e = message_or ''Unknown error occurred'' err, path = endpoint\<rparr>"

text \<open>
  \<^verbatim>\<open>ApiClient.request\<close>. \<open>now\<close> is \<^verbatim>\<open>new Date().toISOString()\<close>, \<open>fetched\<close> the outcome of
  \<^verbatim>\<open>await fetch(url, ...)\<close>, and \<open>null_message\<close> the message of the \<^verbatim>\<open>TypeError\<close> that the
  engine raises when the constructor of \<^verbatim>\<open>ApiClientError\<close> reads \<^verbatim>\<open>apiError.message\<close> of
  \<^verbatim>\<open>null\<close>. On the successful path the code has \<^verbatim>\<open>return response.json()\<close> with no
  \<^verbatim>\<open>await\<close>: the promise leaves the \<^verbatim>\<open>try\<close> block unsettled, so when it rejects the
  \<^verbatim>\<open>catch\<close> does not run and the caller receives the rejection as it is.
\<close>

definition request ::
  "string \<Rightarrow> string \<Rightarrow> thrown + 'j Response \<Rightarrow> string \<Rightarrow> 'j rejection + 'j reply" where
  "request now null_message fetched endpoint =
     (case fetched of
        Inl err \<Rightarrow> Inl (ApiClientError (Built (network_error now err endpoint)))
      | Inr response \<Rightarrow>
          if ok response then
            (if (case content_type response of
                   Some contentType \<Rightarrow> includes_str contentType ''application/json''
                 | None \<Rightarrow> False)
             then (case json response of
                     Inl err \<Rightarrow> Inl (Uncaught err)
                   | Inr v \<Rightarrow> Inr (Json v))
             else Inr (Raw response))
          else
            (case json response of
               Inl err \<Rightarrow>
                 Inl (ApiClientError (Built
                   \<lparr>timestamp = now, status = status_r response, error = statusText response,
                    message_e = ''HTTP '' @ String_num (status_r response) @ '': ''
                                @ statusText response,
                    path = endpoint\<rparr>))
             | Inr JsonNull \<Rightarrow>
                 Inl (ApiClientError (Built
                   (network_error now (JsError ''TypeError'' null_message) endpoint)))
             | Inr (JsonValue errorData) \<Rightarrow> Inl (ApiClientError (FromBody errorData))))"

section \<open>Example data\<close>

text \<open>
  A base page of two jobs, one of them with a numeric identifier, and a live map with an
  update for that job and two jobs that the page does not have; the tool filter is set.
\<close>

definition four_failures :: "event list" where
  "four_failures =
     [StreamFails, TimeoutFires True, StreamFails, TimeoutFires True,
      StreamFails, TimeoutFires True, StreamFails, TimeoutFires True]"

definition ex_job :: "idval \<Rightarrow> string \<Rightarrow> string \<Rightarrow> string \<Rightarrow> string \<Rightarrow> JobDto" where
  "ex_job i t st created updated =
     \<lparr>id_j = i, taskId = Str ''task'', inputArtifactId = IdStr ''7'', baseName = Str ''seq'',
      dirName = Str ''dir'', tool = Str t, options = Str [], createdAt = Str created,
      updatedAt = Str updated, alignArtifactId = Null, statArtifactId = Null,
      jobStatus = Str st, message = Null\<rparr>"

definition ex_parse :: "string \<Rightarrow> int" where
  "ex_parse s =
     (if s = ''2025-09-10T10:00:00'' then 1757498400000
      else if s = ''2025-09-11T10:00:00'' then 1757584800000
      else if s = ''2025-09-12T10:00:00'' then 1757671200000
      else 0)"

definition ex_B :: "JobDto list" where
  "ex_B =
     [ex_job (IdStr ''2'') ''mafft'' ''PENDING'' ''2025-09-11T10:00:00'' ''2025-09-11T10:00:00'',
      ex_job (IdNum 1) ''mafft'' ''RUNNING'' ''2025-09-10T10:00:00'' ''2025-09-10T10:00:05'']"

definition ex_L :: "(string \<times> JobDto) list" where
  "ex_L =
     [(''1'', ex_job (IdStr ''1'') ''mafft'' ''SUCCESS'' ''2025-09-10T10:00:00''
                ''2025-09-10T10:03:00''),
      (''3'', ex_job (IdStr ''3'') ''mafft'' ''PENDING'' ''2025-09-12T10:00:00''
                ''2025-09-12T10:00:00''),
      (''4'', ex_job (IdStr ''4'') ''uclust'' ''PENDING'' ''2025-09-12T10:00:00''
                ''2025-09-12T10:00:00'')]"

definition ex_filter :: JobFilter where
  "ex_filter = \<lparr>inputArtifactId_f = Some ''7'', startDate_f = None, endDate_f = None,
     status_f = None, tool_f = Some ''mafft''\<rparr>"

definition ex_range :: DateRange where
  "ex_range = \<lparr>startDate = Some ''2025-09-10'', endDate = Some ''2025-09-12''\<rparr>"



definition ex_JSON_parse :: "string \<Rightarrow> thrown + parsed" where
  "ex_JSON_parse data =
     (if data = ''update'' then
        Inr (PObject (ex_job (IdNum 1) ''mafft'' ''RUNNING'' ''2025-09-10T10:00:00''
                        ''2025-09-10T10:00:05''))
      else if data = ''ping'' then
        Inr (PObject ((ex_job IdUndefined ''mafft'' [] [] [])\<lparr>taskId := Str ''KEEP_ALIVE''\<rparr>))
      else if data = ''null'' then Inr PNull
      else Inl (JsError ''SyntaxError'' ''Unexpected token''))"


section \<open>The filter predicate\<close>

lemma split_not_Nil: "split sep s \<noteq> []"
  by (induction s) (auto split: list.splits)

lemma hd_split: "hd (split sep s) = takeWhile (\<lambda>c. c \<noteq> sep) s"
  by (induction s) (auto simp: split_not_Nil split: list.splits)

lemma jobDate_date_component: "jobDate (createdAt job) = date_component job"
  by (cases "createdAt job") (simp_all add: date_component_def hd_split)

lemma active_Some_iff: "active x = Some s \<longleftrightarrow> x = Some s \<and> s \<noteq> []"
  by (cases x) auto

lemma active_None_iff: "active x = None \<longleftrightarrow> x = None \<or> x = Some []"
  by (cases x) auto

lemma Nil_less_string: "(s::string) \<noteq> [] \<Longrightarrow> [] < s"
  by (cases s) simp_all

lemma matchesFilter_conj:
  "matchesFilter job filters dateRange \<longleftrightarrow>
     fields_match job filters \<and> date_in_range job dateRange"
  unfolding matchesFilter_def fields_match_def date_in_range_def Let_def
  by (auto simp: active_Some_iff active_None_iff jobDate_date_component not_less
           split: option.splits)

lemma matchesFilter_empty: "matchesFilter job empty_filter empty_range"
  by (simp add: matchesFilter_def empty_filter_def empty_range_def)

lemma date_component_falsy: "\<not> truthy (createdAt job) \<Longrightarrow> date_component job = []"
  by (cases "createdAt job") (simp_all add: date_component_def)

lemma falsy_rejected_by_startDate:
  assumes "\<not> truthy (createdAt job)" and "active (startDate dateRange) \<noteq> None"
  shows "\<not> matchesFilter job filters dateRange"
  using assms date_component_falsy[of job]
  by (auto simp: matchesFilter_conj date_in_range_def active_None_iff)

lemma falsy_accepted_by_endDate:
  assumes "\<not> truthy (createdAt job)" and "active (startDate dateRange) = None"
    and "fields_match job filters"
  shows "matchesFilter job filters dateRange"
  using assms date_component_falsy[of job]
  by (auto simp: matchesFilter_conj date_in_range_def)

section \<open>The live map and the displayed list\<close>

lemma Map_get_set: "Map_get (Map_set k v m) k' = (if k' = k then Some v else Map_get m k')"
  by (simp add: Map_get_def Map_set_def update_conv')

lemma accepts_iff:
  "accepts u L \<longleftrightarrow>
     (case Map_get L (toKey (id_j u)) of
               None \<Rightarrow> True
             | Some ex \<Rightarrow> \<not> truthy (updatedAt u) \<or> \<not> truthy (updatedAt ex)
                          \<or> ge_str (updatedAt u) (updatedAt ex))"
  unfolding accepts_def Map_get_def absent_or_empty_def
  apply (cases "map_of L (toKey (id_j u))")
   apply simp
  subgoal for ex
    by (cases "updatedAt u"; cases "updatedAt ex") auto
  done

lemma upd_eq: "setRealtimeJobs_onMessage u L = (if accepts u L then Map_set (toKey (id_j u)) u L else L)"
  by (simp add: setRealtimeJobs_onMessage_def accepts_iff Let_def)

lemma keys_Map_set: "fst ` set (Map_set k v m) = insert k (fst ` set m)"
  by (simp add: Map_set_def dom_update)

lemma distinct_Map_set: "distinct (map fst m) \<Longrightarrow> distinct (map fst (Map_set k v m))"
  by (simp add: Map_set_def distinct_update)

lemma set_Map_set: "set (Map_set k v m) \<subseteq> insert (k, v) (set m)"
  unfolding Map_set_def by (induction m) auto

lemma key_of_eq: "toKey (id_j j) = key_of j"
  by (simp add: key_of_def)

lemma keyed_iff: "keyed L \<longleftrightarrow> distinct (map fst L) \<and> own_keys L"
  by (auto simp: keyed_def own_keys_def list_all_iff key_of_def)

lemma newJobs_fold:
  "fold (\<lambda>(i, realtimeJob) acc.
             let existsInJobs = list_ex (\<lambda>job. toKey (id_j job) = i) jobs
             in if \<not> existsInJobs
                then (if matchesFilter realtimeJob filters dateRange
                      then acc @ [realtimeJob] else acc)
                else acc) L acc
   = acc @ map snd (filter (\<lambda>(i, rj). i \<notin> key_of ` set jobs \<and> matchesFilter rj filters dateRange) L)"
proof (induction L arbitrary: acc)
  case Nil
  then show ?case by simp
next
  case (Cons p L)
  obtain i rj where p: "p = (i, rj)" by (cases p)
  have ex: "list_ex (\<lambda>job. toKey (id_j job) = i) jobs \<longleftrightarrow> i \<in> key_of ` set jobs"
    by (auto simp: list_ex_iff key_of_def)
  show ?case
    using Cons.IH unfolding p by (simp add: ex Let_def)
qed

lemma newJobs_eq:
  "newJobs jobs L filters dateRange
   = map snd (filter (\<lambda>(i, rj). i \<notin> key_of ` set jobs \<and> matchesFilter rj filters dateRange) L)"
  unfolding newJobs_def using newJobs_fold[of jobs filters dateRange L "[]"] by simp

lemma step_keys: "fst ` set (uniqueJobs_step job m) = insert (key_of job) (fst ` set m)"
  unfolding uniqueJobs_step_def Let_def key_of_eq
  by (auto simp: keys_Map_set Map_get_def split: option.splits dest: map_of_SomeD
      intro: rev_image_eqI)


lemma step_set: "set (uniqueJobs_step job m) \<subseteq> insert (key_of job, job) (set m)"
  unfolding uniqueJobs_step_def Let_def key_of_eq
  using set_Map_set[of "key_of job" job m]
  by (auto split: option.splits)

lemma fold_step_keys:
  "fst ` set (fold uniqueJobs_step xs m) = key_of ` set xs \<union> fst ` set m"
  by (induction xs arbitrary: m) (auto simp: step_keys)


lemma fold_step_set:
  "set (fold uniqueJobs_step xs m) \<subseteq> (\<lambda>j. (key_of j, j)) ` set xs \<union> set m"
proof (induction xs arbitrary: m)
  case Nil
  then show ?case by simp
next
  case (Cons x xs)
  have "set (fold uniqueJobs_step xs (uniqueJobs_step x m))
        \<subseteq> (\<lambda>j. (key_of j, j)) ` set xs \<union> set (uniqueJobs_step x m)"
    by (rule Cons.IH)
  then show ?case using step_set[of x m] by auto
qed

lemma uniqueJobs_keys: "fst ` set (uniqueJobs xs) = key_of ` set xs"
  by (simp add: uniqueJobs_def fold_step_keys)


lemma uniqueJobs_set: "set (uniqueJobs xs) \<subseteq> (\<lambda>j. (key_of j, j)) ` set xs"
  using fold_step_set[of xs "[]"] by (simp add: uniqueJobs_def)



lemma finalJobs_subset: "set (map snd (uniqueJobs xs)) \<subseteq> set xs"
  using uniqueJobs_set[of xs] by auto

lemma finalJobs_keys: "key_of ` set (map snd (uniqueJobs xs)) = key_of ` set xs"
proof -
  have eq: "\<And>p. p \<in> set (uniqueJobs xs) \<Longrightarrow> key_of (snd p) = fst p"
    using uniqueJobs_set[of xs] by auto
  have "key_of ` set (map snd (uniqueJobs xs)) = fst ` set (uniqueJobs xs)"
    using eq by (force simp: image_iff)
  then show ?thesis
    by (simp only: uniqueJobs_keys)
qed

lemma finalJobs_unique_key:
  assumes "x \<in> set xs" and "\<forall>y \<in> set xs. key_of y = key_of x \<longrightarrow> y = x"
  shows "x \<in> set (map snd (uniqueJobs xs))"
proof -
  have "key_of x \<in> key_of ` set (map snd (uniqueJobs xs))"
    using assms(1) finalJobs_keys[of xs] by blast
  then obtain r where r: "r \<in> set (map snd (uniqueJobs xs))" "key_of r = key_of x"
    by (metis imageE)
  then have "r \<in> set xs" using finalJobs_subset[of xs] by blast
  with r assms(2) have "r = x" by simp
  with r show ?thesis by simp
qed

lemma set_insert_cmp: "set (insert_cmp cmp x ys) = insert x (set ys)"
  by (induction ys) auto

lemma set_Array_sort: "set (Array_sort cmp xs) = set xs"
  unfolding Array_sort_def by (induction xs) (auto simp: set_insert_cmp)





lemma merged_overlay: "merged L b = overlay L b"
  by (simp add: merged_def overlay_def Map_get_def key_of_def)

lemma key_of_spread:
  assumes "key_of live = key_of b"
  shows "key_of (spread b live) = key_of b"
  using assms by (simp add: key_of_def spread_def ov_id_def)

lemma key_of_overlay:
  assumes "own_keys L"
  shows "key_of (overlay L b) = key_of b"
proof (cases "map_of L (key_of b)")
  case None
  then show ?thesis by (simp add: overlay_def)
next
  case (Some live)
  then have "(key_of b, live) \<in> set L" by (rule map_of_SomeD)
  with assms have "key_of live = key_of b" by (auto simp: own_keys_def)
  with Some show ?thesis by (simp add: overlay_def key_of_spread)
qed

lemma in_newJobs_iff:
  "j \<in> set (newJobs B L filters dateRange) \<longleftrightarrow>
     (\<exists>k. (k, j) \<in> set L \<and> k \<notin> key_of ` set B \<and> matchesFilter j filters dateRange)"
  by (force simp: newJobs_eq)

lemma in_existingJobs_iff:
  "r \<in> set (existingJobs B L) \<longleftrightarrow> (\<exists>b \<in> set B. r = overlay L b)"
  by (auto simp: existingJobs_def merged_overlay)

lemma displayJobs_alt:
  "displayJobs parse B L filters dateRange =
     Array_sort (\<lambda>a b. getTime parse (createdAt b) - getTime parse (createdAt a))
       (map snd (uniqueJobs (allJobs B L filters dateRange)))"
  by (simp add: displayJobs_def allJobs_def Let_def)

lemma in_allJobs_cases:
  assumes "r \<in> set (allJobs B L filters dateRange)" and "own_keys L"
  shows "(key_of r \<notin> key_of ` set B \<and> (key_of r, r) \<in> set L \<and> matchesFilter r filters dateRange)
       \<or> (\<exists>b \<in> set B. key_of b = key_of r \<and> r = overlay L b)"
proof -
  from assms(1) consider "r \<in> set (newJobs B L filters dateRange)" | "r \<in> set (existingJobs B L)"
    by (auto simp: allJobs_def)
  then show ?thesis
  proof cases
    case 1
    then obtain k where k: "(k, r) \<in> set L" "k \<notin> key_of ` set B" "matchesFilter r filters dateRange"
      by (auto simp: in_newJobs_iff)
    with assms(2) have "key_of r = k" by (auto simp: own_keys_def)
    with k show ?thesis by simp
  next
    case 2
    then obtain b where "b \<in> set B" "r = overlay L b" by (auto simp: in_existingJobs_iff)
    then show ?thesis using key_of_overlay[OF assms(2), of b] by auto
  qed
qed

lemma displayJobs_subset:
  "set (displayJobs parse B L filters dateRange) \<subseteq> set (allJobs B L filters dateRange)"
  unfolding displayJobs_alt set_Array_sort by (rule finalJobs_subset)

lemma displayJobs_keys:
  "key_of ` set (displayJobs parse B L filters dateRange)
     = key_of ` set (allJobs B L filters dateRange)"
  unfolding displayJobs_alt set_Array_sort by (rule finalJobs_keys)

lemma displayJobs_unique_key:
  assumes "x \<in> set (allJobs B L filters dateRange)"
    and "\<forall>y \<in> set (allJobs B L filters dateRange). key_of y = key_of x \<longrightarrow> y = x"
  shows "x \<in> set (displayJobs parse B L filters dateRange)"
  unfolding displayJobs_alt set_Array_sort using assms by (rule finalJobs_unique_key)



lemma displayJobs_covers_base:
  assumes "own_keys L" and "b \<in> set B"
  shows "\<exists>r \<in> set (displayJobs parse B L filters dateRange). key_of r = key_of b"
proof -
  have "overlay L b \<in> set (allJobs B L filters dateRange)"
    using assms(2) by (auto simp: allJobs_def in_existingJobs_iff)
  then have "key_of (overlay L b) \<in> key_of ` set (displayJobs parse B L filters dateRange)"
    unfolding displayJobs_keys by (rule imageI)
  then show ?thesis
    using key_of_overlay[OF assms(1), of b] by (metis imageE)
qed


lemma displayJobs_live_entries:
  assumes "own_keys L" and "r \<in> set (displayJobs parse B L filters dateRange)"
    and "key_of r \<notin> key_of ` set B"
  shows "(key_of r, r) \<in> set L \<and> matchesFilter r filters dateRange"
proof -
  have "r \<in> set (allJobs B L filters dateRange)"
    using assms(2) displayJobs_subset by blast
  from in_allJobs_cases[OF this assms(1)] assms(3) show ?thesis by (metis imageI)
qed

lemma displayJobs_base_distinct:
  assumes "own_keys L" and "distinct (map key_of B)" and "b \<in> set B"
  shows "overlay L b \<in> set (displayJobs parse B L filters dateRange)"
proof (rule displayJobs_unique_key)
  show "overlay L b \<in> set (allJobs B L filters dateRange)"
    using assms(3) by (auto simp: allJobs_def in_existingJobs_iff)
  show "\<forall>y \<in> set (allJobs B L filters dateRange).
          key_of y = key_of (overlay L b) \<longrightarrow> y = overlay L b"
  proof (intro ballI impI)
    fix y assume y: "y \<in> set (allJobs B L filters dateRange)"
      and ky: "key_of y = key_of (overlay L b)"
    have kb: "key_of y = key_of b" using ky key_of_overlay[OF assms(1)] by simp
    then have "key_of y \<in> key_of ` set B" using assms(3) by simp
    with in_allJobs_cases[OF y assms(1)]
    obtain b' where b': "b' \<in> set B" "key_of b' = key_of y" "y = overlay L b'" by blast
    have "inj_on key_of (set B)" using assms(2) by (simp add: distinct_map)
    with b' kb assms(3) have "b' = b" by (auto dest: inj_onD)
    with b' show "y = overlay L b" by simp
  qed
qed

lemma displayJobs_live_only:
  assumes "distinct (map fst L)" and "own_keys L" and "(k, j) \<in> set L"
    and "k \<notin> key_of ` set B"
  shows "j \<in> set (displayJobs parse B L filters dateRange) \<longleftrightarrow> matchesFilter j filters dateRange"
proof
  assume "j \<in> set (displayJobs parse B L filters dateRange)"
  moreover have "key_of j = k" using assms(2,3) by (auto simp: own_keys_def)
  ultimately show "matchesFilter j filters dateRange"
    using displayJobs_live_entries[OF assms(2), of j parse B filters dateRange] assms(4) by simp
next
  assume m: "matchesFilter j filters dateRange"
  have kj: "key_of j = k" using assms(2,3) by (auto simp: own_keys_def)
  show "j \<in> set (displayJobs parse B L filters dateRange)"
  proof (rule displayJobs_unique_key)
    show "j \<in> set (allJobs B L filters dateRange)"
      using assms(3,4) m by (auto simp: allJobs_def in_newJobs_iff)
    show "\<forall>y \<in> set (allJobs B L filters dateRange). key_of y = key_of j \<longrightarrow> y = j"
    proof (intro ballI impI)
      fix y assume y: "y \<in> set (allJobs B L filters dateRange)" and ky: "key_of y = key_of j"
      then have "key_of y \<notin> key_of ` set B" using kj assms(4) by simp
      with in_allJobs_cases[OF y assms(2)] have "(key_of y, y) \<in> set L" by (metis imageI)
      then have "(k, y) \<in> set L" using ky kj by simp
      with assms(1,3) show "y = j"
        by (meson eq_key_imp_eq_value)
    qed
  qed
qed

lemma keyed_Nil: "keyed []"
  by (simp add: keyed_def)

lemma own_keys_Map_set:
  assumes "own_keys m" and "key_of v = k"
  shows "own_keys (Map_set k v m)"
  using assms set_Map_set[of k v m] unfolding own_keys_def by blast

lemma keyed_onMessage:
  assumes "keyed L"
  shows "keyed (setRealtimeJobs_onMessage u L)"
  using assms
  by (auto simp: keyed_iff upd_eq distinct_Map_set own_keys_Map_set key_of_def)

lemma filter_fold_keyed:
  assumes "distinct (map fst acc)" and "own_keys acc" and "own_keys L"
  shows "distinct (map fst (fold (\<lambda>(i, job) filtered.
             if matchesFilter job filters dateRange then Map_set i job filtered else filtered)
           L acc))
       \<and> own_keys (fold (\<lambda>(i, job) filtered.
             if matchesFilter job filters dateRange then Map_set i job filtered else filtered)
           L acc)"
  using assms
proof (induction L arbitrary: acc)
  case Nil
  then show ?case by simp
next
  case (Cons p L)
  obtain i job where p: "p = (i, job)" by (cases p)
  from Cons.prems(3) have kj: "key_of job = i" and oL: "own_keys L"
    by (auto simp: own_keys_def p)
  show ?case
  proof (cases "matchesFilter job filters dateRange")
    case True
    have "distinct (map fst (Map_set i job acc))" "own_keys (Map_set i job acc)"
      using Cons.prems(1,2) kj by (simp_all add: distinct_Map_set own_keys_Map_set)
    from Cons.IH[OF this oL] show ?thesis by (simp add: p True)
  next
    case False
    from Cons.IH[OF Cons.prems(1,2) oL] show ?thesis by (simp add: p False)
  qed
qed

lemma keyed_filter:
  assumes "keyed L"
  shows "keyed (setRealtimeJobs_filter filters dateRange L)"
  using assms filter_fold_keyed[of "[]" L filters dateRange]
  by (simp add: keyed_iff setRealtimeJobs_filter_def own_keys_def)

lemma stale_entry_differs:
  assumes "\<not> accepts u L"
  shows "Map_get L (toKey (id_j u)) \<noteq> Some u"
proof
  assume "Map_get L (toKey (id_j u)) = Some u"
  then have "map_of L (toKey (id_j u)) = Some u" by (simp add: Map_get_def)
  with assms show False
    by (cases "updatedAt u") (auto simp: accepts_def absent_or_empty_def)
qed

lemma onMessage_frame:
  assumes "k' \<noteq> toKey (id_j u)"
  shows "Map_get (setRealtimeJobs_onMessage u L) k' = Map_get L k'"
  using assms by (simp add: upd_eq Map_get_set)

section \<open>The reconnection of the monitor\<close>

lemma run_append: "run (xs @ ys) m = run ys (run xs m)"
  by (simp add: run_def)

lemma failures_Suc: "failures (Suc n) = [StreamFails, TimeoutFires True] @ failures n"
  by (simp add: failures_def)

lemma StreamFails_effect:
  assumes "eventSource m \<noteq> None" and "0 < maxReconnectAttempts m"
  shows "eventSource (step StreamFails m) = None"
    and "reconnectTimer (step StreamFails m) = Some Pending"
    and "reconnectAttempts (step StreamFails m) = 1"
    and "maxReconnectAttempts (step StreamFails m) = maxReconnectAttempts m"
    and "reconnectDelay (step StreamFails m) = reconnectDelay m"
    and "attempts_scheduled (step StreamFails m) = attempts_scheduled m + 1"
    and "MaxAttemptsReached \<in> set (trace (step StreamFails m))
           \<longleftrightarrow> MaxAttemptsReached \<in> set (trace m)"
    and "CloseEventSource \<in> set (trace (step StreamFails m))"
  using assms
  by (auto simp: onerror_def disconnect_def scheduleReconnect_def emit_def Let_def
        attempts_scheduled_def)

lemma TimeoutFires_effect:
  assumes "eventSource m = None" and "reconnectTimer m = Some Pending"
  shows "eventSource (step (TimeoutFires True) m) = Some CONNECTING"
    and "reconnectAttempts (step (TimeoutFires True) m) = reconnectAttempts m"
    and "maxReconnectAttempts (step (TimeoutFires True) m) = maxReconnectAttempts m"
    and "attempts_scheduled (step (TimeoutFires True) m) = attempts_scheduled m"
    and "MaxAttemptsReached \<in> set (trace (step (TimeoutFires True) m))
           \<longleftrightarrow> MaxAttemptsReached \<in> set (trace m)"
  using assms
  by (auto simp: connect_def emit_def attempts_scheduled_def)

lemma failure_round:
  assumes "eventSource m \<noteq> None" and "0 < maxReconnectAttempts m"
  defines "m' \<equiv> run [StreamFails, TimeoutFires True] m"
  shows "eventSource m' = Some CONNECTING"
    and "maxReconnectAttempts m' = maxReconnectAttempts m"
    and "reconnectAttempts m' = 1"
    and "attempts_scheduled m' = attempts_scheduled m + 1"
    and "MaxAttemptsReached \<in> set (trace m') \<longleftrightarrow> MaxAttemptsReached \<in> set (trace m)"
proof -
  let ?m1 = "step StreamFails m"
  have m': "m' = step (TimeoutFires True) ?m1" by (simp add: m'_def run_def)
  note a = StreamFails_effect[OF assms(1,2)]
  note b = TimeoutFires_effect[OF a(1) a(2)]
  show "eventSource m' = Some CONNECTING" unfolding m' by (rule b(1))
  show "maxReconnectAttempts m' = maxReconnectAttempts m" unfolding m' using b(3) a(4) by simp
  show "reconnectAttempts m' = 1" unfolding m' using b(2) a(3) by simp
  show "attempts_scheduled m' = attempts_scheduled m + 1" unfolding m' using b(4) a(6) by simp
  show "MaxAttemptsReached \<in> set (trace m') \<longleftrightarrow> MaxAttemptsReached \<in> set (trace m)"
    unfolding m' using b(5) a(7) by simp
qed

lemma failures_never_give_up:
  assumes "eventSource m \<noteq> None" and "0 < maxReconnectAttempts m"
  shows "attempts_scheduled (run (failures n) m) = attempts_scheduled m + n
       \<and> eventSource (run (failures n) m) \<noteq> None
       \<and> reconnectAttempts (run (failures n) m) \<le> max 1 (reconnectAttempts m)
       \<and> (MaxAttemptsReached \<in> set (trace (run (failures n) m))
            \<longleftrightarrow> MaxAttemptsReached \<in> set (trace m))"
  using assms
proof (induction n arbitrary: m)
  case 0
  then show ?case by (simp add: failures_def run_def)
next
  case (Suc n)
  let ?m' = "run [StreamFails, TimeoutFires True] m"
  note r = failure_round[OF Suc.prems]
  have e: "eventSource ?m' \<noteq> None" using r(1) by simp
  have p: "0 < maxReconnectAttempts ?m'" using r(2) Suc.prems(2) by simp
  from Suc.IH[OF e p] r show ?case
    by (simp add: failures_Suc run_append le_max_iff_disj del: append.simps)
qed

lemma JobMonitor_new_state:
  "eventSource (JobMonitor_new d True) = Some CONNECTING"
  "maxReconnectAttempts (JobMonitor_new d True) = 3"
  "reconnectAttempts (JobMonitor_new d True) = 0"
  "trace (JobMonitor_new d True) = [NewEventSource]"
  by (simp_all add: JobMonitor_new_def connect_def emit_def)

lemma retries_unbounded:
  "attempts_scheduled (run (failures n) (JobMonitor_new d True)) = n
   \<and> MaxAttemptsReached \<notin> set (trace (run (failures n) (JobMonitor_new d True)))"
  using failures_never_give_up[of "JobMonitor_new d True" n]
  by (simp add: JobMonitor_new_state attempts_scheduled_def)

lemma reconnect_resets: "reconnectAttempts (reconnect True m) = 0"
  by (simp add: reconnect_def connect_def disconnect_def emit_def Let_def)

section \<open>The message handler, the pager and the HTTP client\<close>

lemma onmessage_calls:
  "fst (onmessage JSON_parse onMessage data) =
     (case JSON_parse data of
        Inr (PObject job) \<Rightarrow>
          if truthy_id (id_j job) \<and> taskId job \<noteq> Str ''KEEP_ALIVE'' then [job] else []
      | _ \<Rightarrow> [])"
  by (auto simp: onmessage_def onmessage_try_def split: sum.splits parsed.splits)

lemma request_failure_uniform:
  "request now null_message (Inl err) endpoint
     = Inl (ApiClientError (Built \<lparr>timestamp = now, status = 0, error = ''Network Error'',
          message_e = message_or ''Unknown error occurred'' err, path = endpoint\<rparr>))"
  "\<not> ok response \<Longrightarrow> \<exists>e. request now null_message (Inr response) endpoint = Inl (ApiClientError e)"
  by (auto simp: request_def network_error_def split: sum.splits parsed_body.splits)

section \<open>The claims\<close>



text \<open>
  C2. The updater of the SSE callback stores the update \<open>u\<close> under the key
  \<^verbatim>\<open>String(u.id)\<close>, in place of whatever was there, exactly when the map has no entry under
  that key, or \<open>u\<close> has no \<^verbatim>\<open>updatedAt\<close>, or the entry has none, or that of \<open>u\<close> is not below
  the entry's as a string; otherwise it returns the map as it was.
\<close>

theorem onMessage_stores_iff_accepts:
  "setRealtimeJobs_onMessage u L
     = (if accepts u L then Map_set (toKey (id_j u)) u L else L)
   \<and> (Map_get (setRealtimeJobs_onMessage u L) (toKey (id_j u)) = Some u \<longleftrightarrow> accepts u L)"
  using stale_entry_differs[of u L] by (auto simp: upd_eq Map_get_set)

theorem onMessage_stores_iff_accepts_witness:
  "accepts (ex_job (IdNum 1) ''mafft'' ''ERROR'' ''2025-09-10T10:00:00'' ''2025-09-10T10:04:00'') ex_L
   \<and> Map_get (setRealtimeJobs_onMessage
        (ex_job (IdNum 1) ''mafft'' ''ERROR'' ''2025-09-10T10:00:00'' ''2025-09-10T10:04:00'') ex_L) ''1''
      = Some (ex_job (IdNum 1) ''mafft'' ''ERROR'' ''2025-09-10T10:00:00'' ''2025-09-10T10:04:00'')
   \<and> \<not> accepts (ex_job (IdNum 1) ''mafft'' ''RUNNING'' ''2025-09-10T10:00:00'' ''2025-09-10T10:00:05'') ex_L
   \<and> setRealtimeJobs_onMessage
        (ex_job (IdNum 1) ''mafft'' ''RUNNING'' ''2025-09-10T10:00:00'' ''2025-09-10T10:00:05'') ex_L
      = ex_L"
proof -
  have key: "\<And>t st c u. toKey (id_j (ex_job (IdNum 1) t st c u)) = ''1''"
    by (simp add: ex_job_def toKey_def String_num_def string_of_nat.simps)
  have up: "\<And>i t st c u. updatedAt (ex_job i t st c u) = Str u"
    by (simp add: ex_job_def)
  have a: "accepts (ex_job (IdNum 1) ''mafft'' ''ERROR'' ''2025-09-10T10:00:00'' ''2025-09-10T10:04:00'') ex_L"
    by (simp add: accepts_def key ex_L_def up absent_or_empty_def)
  have b: "\<not> accepts (ex_job (IdNum 1) ''mafft'' ''RUNNING'' ''2025-09-10T10:00:00'' ''2025-09-10T10:00:05'') ex_L"
    by (simp add: accepts_def key ex_L_def up absent_or_empty_def)
  from a b
    onMessage_stores_iff_accepts[of "ex_job (IdNum 1) ''mafft'' ''ERROR'' ''2025-09-10T10:00:00'' ''2025-09-10T10:04:00''" ex_L]
    onMessage_stores_iff_accepts[of "ex_job (IdNum 1) ''mafft'' ''RUNNING'' ''2025-09-10T10:00:00'' ''2025-09-10T10:00:05''" ex_L]
  show ?thesis by (simp add: key Map_get_set)
qed

text \<open>
  C3. \<^verbatim>\<open>matchesFilter\<close> returns true exactly when the conjunction holds: the source file,
  the tool and the status each equal the filter's value when that is set, and the date
  component of \<^verbatim>\<open>createdAt\<close> lies between the start and the end date, as far as they are
  set, in the order of strings.
\<close>

theorem matchesFilter_iff_conjunction:
  "matchesFilter job filters dateRange \<longleftrightarrow> filter_conjunction job filters dateRange"
  by (simp add: matchesFilter_conj filter_conjunction_def)

theorem matchesFilter_iff_conjunction_witness:
  "matchesFilter (ex_job (IdStr ''3'') ''mafft'' ''PENDING'' ''2025-09-12T10:00:00'' []) ex_filter ex_range
   \<and> filter_conjunction (ex_job (IdStr ''3'') ''mafft'' ''PENDING'' ''2025-09-12T10:00:00'' [])
        ex_filter ex_range
   \<and> \<not> matchesFilter (ex_job (IdStr ''3'') ''mafft'' ''PENDING'' ''2025-09-13T10:00:00'' []) ex_filter ex_range
   \<and> \<not> filter_conjunction (ex_job (IdStr ''3'') ''mafft'' ''PENDING'' ''2025-09-13T10:00:00'' [])
        ex_filter ex_range"
proof -
  have a: "filter_conjunction (ex_job (IdStr ''3'') ''mafft'' ''PENDING'' ''2025-09-12T10:00:00'' [])
        ex_filter ex_range"
    by (simp add: filter_conjunction_def fields_match_def date_in_range_def date_component_def
          ex_job_def ex_filter_def ex_range_def)
  have b: "\<not> filter_conjunction (ex_job (IdStr ''3'') ''mafft'' ''PENDING'' ''2025-09-13T10:00:00'' [])
        ex_filter ex_range"
    by (simp add: filter_conjunction_def fields_match_def date_in_range_def date_component_def
          ex_job_def ex_filter_def ex_range_def)
  from a b
    matchesFilter_iff_conjunction[of "ex_job (IdStr ''3'') ''mafft'' ''PENDING'' ''2025-09-12T10:00:00'' []" ex_filter ex_range]
    matchesFilter_iff_conjunction[of "ex_job (IdStr ''3'') ''mafft'' ''PENDING'' ''2025-09-13T10:00:00'' []" ex_filter ex_range]
  show ?thesis by simp
qed

text \<open>
  C4. The bound on the reconnect attempts is not enforced on the error path. The handler
  \<^verbatim>\<open>onerror\<close> calls \<^verbatim>\<open>disconnect\<close>, which sets \<^verbatim>\<open>reconnectAttempts\<close> to 0, before it calls
  \<^verbatim>\<open>scheduleReconnect\<close>; the counter is 1 after every failure and never reaches
  \<^verbatim>\<open>maxReconnectAttempts\<close>. After four failures in a row a fourth reconnect attempt is
  scheduled and has run, beyond the bound of 3, and the monitor has not given up
  (\<open>retries_unbounded\<close> shows the same for any number of failures).
\<close>

theorem JobMonitor_bound_not_enforced:
  "attempts_scheduled (run four_failures (JobMonitor_new 5000 True)) = 4
   \<and> maxReconnectAttempts (run four_failures (JobMonitor_new 5000 True)) = 3
   \<and> reconnectAttempts (run four_failures (JobMonitor_new 5000 True)) = 1
   \<and> reconnectTimer (run four_failures (JobMonitor_new 5000 True)) = Some Fired
   \<and> eventSource (run four_failures (JobMonitor_new 5000 True)) = Some CONNECTING
   \<and> MaxAttemptsReached \<notin> set (trace (run four_failures (JobMonitor_new 5000 True)))"
  by (simp add: four_failures_def run_def JobMonitor_new_def connect_def emit_def onerror_def
        disconnect_def scheduleReconnect_def attempts_scheduled_def Let_def)

text \<open>
  C5. The handler of a raw SSE message calls \<^verbatim>\<open>onMessage\<close> with the parsed job exactly when
  the data parses as JSON to an object whose \<^verbatim>\<open>id\<close> is truthy and whose \<^verbatim>\<open>taskId\<close> is
  missing, empty or different from \<^verbatim>\<open>KEEP_ALIVE\<close>; it makes at most one call, and nothing
  is thrown out of it, whatever the parser or the callback throws.
\<close>

theorem onmessage_delivers_iff:
  "(fst (onmessage JSON_parse onMessage data) = [job] \<longleftrightarrow> deliverable JSON_parse data job)
   \<and> length (fst (onmessage JSON_parse onMessage data)) \<le> 1
   \<and> snd (onmessage JSON_parse onMessage data) = None"
proof -
  have none: "snd (onmessage JSON_parse onMessage data) = None"
    by (simp add: onmessage_def split: prod.splits)
  have calls: "fst (onmessage JSON_parse onMessage data) = [job] \<longleftrightarrow> deliverable JSON_parse data job"
    unfolding onmessage_calls deliverable_def absent_or_empty_def
    by (auto split: sum.splits parsed.splits)
  have short: "length (fst (onmessage JSON_parse onMessage data)) \<le> 1"
    unfolding onmessage_calls by (simp split: sum.splits parsed.splits)
  from none calls short show ?thesis by simp
qed

theorem onmessage_delivers_iff_witness:
  "deliverable ex_JSON_parse ''update''
     (ex_job (IdNum 1) ''mafft'' ''RUNNING'' ''2025-09-10T10:00:00'' ''2025-09-10T10:00:05'')
   \<and> onmessage ex_JSON_parse (\<lambda>job. Some NonError) ''update''
       = ([ex_job (IdNum 1) ''mafft'' ''RUNNING'' ''2025-09-10T10:00:00'' ''2025-09-10T10:00:05''],
          None)
   \<and> onmessage ex_JSON_parse (\<lambda>job. None) ''ping'' = ([], None)
   \<and> onmessage ex_JSON_parse (\<lambda>job. None) ''null'' = ([], None)
   \<and> onmessage ex_JSON_parse (\<lambda>job. None) ''{'' = ([], None)"
proof -
  have d: "deliverable ex_JSON_parse ''update''
     (ex_job (IdNum 1) ''mafft'' ''RUNNING'' ''2025-09-10T10:00:00'' ''2025-09-10T10:00:05'')"
    by (simp add: deliverable_def ex_JSON_parse_def ex_job_def)
  have rest:
    "onmessage ex_JSON_parse (\<lambda>job. None) ''ping'' = ([], None)"
    "onmessage ex_JSON_parse (\<lambda>job. None) ''null'' = ([], None)"
    "onmessage ex_JSON_parse (\<lambda>job. None) ''{'' = ([], None)"
    by (simp_all add: onmessage_def onmessage_try_def ex_JSON_parse_def ex_job_def)
  from d onmessage_delivers_iff[of ex_JSON_parse "\<lambda>job. Some NonError" "''update''"
      "ex_job (IdNum 1) ''mafft'' ''RUNNING'' ''2025-09-10T10:00:00'' ''2025-09-10T10:00:05''"]
  have "onmessage ex_JSON_parse (\<lambda>job. Some NonError) ''update''
       = ([ex_job (IdNum 1) ''mafft'' ''RUNNING'' ''2025-09-10T10:00:00'' ''2025-09-10T10:00:05''],
          None)"
    by (simp add: prod_eq_iff)
  with d rest show ?thesis by simp
qed



text \<open>
  C7. A rejection that is not an \<^verbatim>\<open>ApiClientError\<close> leaves \<^verbatim>\<open>request\<close>: for an answer with
  status 200 and a JSON content type whose body does not parse, the promise that
  \<^verbatim>\<open>request\<close> returns rejects with the \<^verbatim>\<open>SyntaxError\<close> of \<^verbatim>\<open>response.json()\<close>.
\<close>

theorem request_json_rejection_escapes:
  "request now null_message
     (Inr \<lparr>status_r = 200, statusText = ''OK'', content_type = Some ''application/json'',
           json = Inl (JsError ''SyntaxError'' msg)\<rparr>) endpoint
   = Inl (Uncaught (JsError ''SyntaxError'' msg))"
  by (simp add: request_def ok_def)

text \<open>
  C8. One SSE update with identifier \<open>i\<close> changes at most the entry under the key
  \<^verbatim>\<open>String(i)\<close> of the live map: under every other key the map holds after the update
  what it held before.
\<close>

theorem onMessage_other_keys_unchanged:
  assumes "k' \<noteq> toKey (id_j u)"
  shows "Map_get (setRealtimeJobs_onMessage u L) k' = Map_get L k'"
  using assms by (rule onMessage_frame)

theorem onMessage_other_keys_unchanged_witness:
  "''3'' \<noteq> toKey (id_j (ex_job (IdNum 1) ''mafft'' ''ERROR'' ''2025-09-10T10:00:00''
                             ''2025-09-10T10:04:00''))
   \<and> Map_get (setRealtimeJobs_onMessage
        (ex_job (IdNum 1) ''mafft'' ''ERROR'' ''2025-09-10T10:00:00'' ''2025-09-10T10:04:00'') ex_L)
        ''3''
      = Some (ex_job (IdStr ''3'') ''mafft'' ''PENDING'' ''2025-09-12T10:00:00''
                ''2025-09-12T10:00:00'')"
proof -
  have n: "''3'' \<noteq> toKey (id_j (ex_job (IdNum 1) ''mafft'' ''ERROR'' ''2025-09-10T10:00:00''
                             ''2025-09-10T10:04:00''))"
    by (simp add: ex_job_def toKey_def String_num_def string_of_nat.simps)
  have g: "Map_get ex_L ''3'' = Some (ex_job (IdStr ''3'') ''mafft'' ''PENDING''
             ''2025-09-12T10:00:00'' ''2025-09-12T10:00:00'')"
    by (simp add: Map_get_def ex_L_def)
  from n g onMessage_other_keys_unchanged[OF n, of ex_L] show ?thesis by simp
qed

text \<open>
  C9. With the empty filter object and the empty date range \<^verbatim>\<open>matchesFilter\<close> is true of
  every job. So, with no filter set, every job of the base list is displayed under its key
  (as its overlay, when the keys of the base list are distinct) and so is every job that
  only the live map has.
\<close>

theorem empty_filter_shows_all:
  "matchesFilter job empty_filter empty_range
   \<and> (keyed L \<longrightarrow>
        (\<forall>b \<in> set B. \<exists>r \<in> set (displayJobs parse B L empty_filter empty_range).
            key_of r = key_of b)
      \<and> (distinct (map key_of B) \<longrightarrow>
           (\<forall>b \<in> set B. overlay L b \<in> set (displayJobs parse B L empty_filter empty_range)))
      \<and> (\<forall>(k, j) \<in> set L. k \<notin> key_of ` set B \<longrightarrow>
           j \<in> set (displayJobs parse B L empty_filter empty_range)))"
proof (intro conjI impI ballI)
  show "matchesFilter job empty_filter empty_range" by (rule matchesFilter_empty)
next
  fix b assume "keyed L" "b \<in> set B"
  then show "\<exists>r \<in> set (displayJobs parse B L empty_filter empty_range). key_of r = key_of b"
    by (simp add: keyed_iff displayJobs_covers_base)
next
  fix b assume "keyed L" "distinct (map key_of B)" "b \<in> set B"
  then show "overlay L b \<in> set (displayJobs parse B L empty_filter empty_range)"
    by (simp add: keyed_iff displayJobs_base_distinct)
next
  fix p assume k: "keyed L" and p: "p \<in> set L"
  show "case p of (k, j) \<Rightarrow> k \<notin> key_of ` set B \<longrightarrow>
          j \<in> set (displayJobs parse B L empty_filter empty_range)"
  proof (cases p)
    case (Pair k' j)
    with k p show ?thesis
      using displayJobs_live_only[of L k' j B parse empty_filter empty_range]
      by (simp add: keyed_iff matchesFilter_empty)
  qed
qed

theorem empty_filter_shows_all_witness:
  "keyed ex_L
   \<and> matchesFilter (ex_job (IdStr ''4'') ''uclust'' ''PENDING'' ''2025-09-12T10:00:00''
        ''2025-09-12T10:00:00'') empty_filter empty_range
   \<and> ex_job (IdStr ''4'') ''uclust'' ''PENDING'' ''2025-09-12T10:00:00'' ''2025-09-12T10:00:00''
       \<in> set (displayJobs ex_parse ex_B ex_L empty_filter empty_range)"
proof -
  have k: "keyed ex_L"
    by (simp add: keyed_def ex_L_def ex_job_def toKey_def)
  have i: "(''4'', ex_job (IdStr ''4'') ''uclust'' ''PENDING'' ''2025-09-12T10:00:00''
             ''2025-09-12T10:00:00'') \<in> set ex_L"
    by (simp add: ex_L_def)
  have n: "''4'' \<notin> key_of ` set ex_B"
    by (simp add: ex_B_def key_of_def ex_job_def toKey_def String_num_def string_of_nat.simps)
  from empty_filter_shows_all[of "ex_job (IdStr ''4'') ''uclust'' ''PENDING''
         ''2025-09-12T10:00:00'' ''2025-09-12T10:00:00''" ex_L ex_B ex_parse] k i n
  show ?thesis by blast
qed

text \<open>
  C10. A job whose \<^verbatim>\<open>createdAt\<close> is missing or empty has the empty string as its date
  component. Whenever a start date is set, \<^verbatim>\<open>matchesFilter\<close> rejects it; when only an end
  date is set and the other components of the filter match, \<^verbatim>\<open>matchesFilter\<close> accepts it.
\<close>

theorem missing_createdAt_date_filter:
  assumes "\<not> truthy (createdAt job)"
  shows "date_component job = []
       \<and> (active (startDate dateRange) \<noteq> None \<longrightarrow> \<not> matchesFilter job filters dateRange)
       \<and> (active (startDate dateRange) = None \<and> active (endDate dateRange) \<noteq> None
            \<and> fields_match job filters \<longrightarrow> matchesFilter job filters dateRange)"
  using assms
  by (simp add: date_component_falsy falsy_rejected_by_startDate falsy_accepted_by_endDate)

theorem missing_createdAt_date_filter_witness:
  "\<not> truthy (createdAt (ex_job (IdStr ''5'') ''mafft'' ''PENDING'' [] []))
   \<and> \<not> matchesFilter (ex_job (IdStr ''5'') ''mafft'' ''PENDING'' [] []) ex_filter
         \<lparr>startDate = Some ''2025-09-10'', endDate = None\<rparr>
   \<and> matchesFilter (ex_job (IdStr ''5'') ''mafft'' ''PENDING'' [] []) ex_filter
         \<lparr>startDate = None, endDate = Some ''2025-09-12''\<rparr>"
proof -
  have f: "\<not> truthy (createdAt (ex_job (IdStr ''5'') ''mafft'' ''PENDING'' [] []))"
    by (simp add: ex_job_def)
  have m: "fields_match (ex_job (IdStr ''5'') ''mafft'' ''PENDING'' [] []) ex_filter"
    by (simp add: fields_match_def ex_job_def ex_filter_def)
  from f m
    missing_createdAt_date_filter[OF f, of "\<lparr>startDate = Some ''2025-09-10'', endDate = None\<rparr>" ex_filter]
    missing_createdAt_date_filter[OF f, of "\<lparr>startDate = None, endDate = Some ''2025-09-12''\<rparr>" ex_filter]
  show ?thesis by simp
qed

end
